theory Spec2Isabelle
  imports Main "HOL-Library.AList" "HOL-Library.Char_ord" "HOL-Library.List_Lexorder"
begin

section \<open>Values, dictionaries and Python's comparisons\<close>

text \<open>
  The connector handles decoded JSON: the fields of a record and of a stream state are
  typed \<open>Any\<close> in the source. The values that occur as cursors are strings (timestamps),
  integers (ids) and \<open>None\<close> (a JSON null, or the result of \<open>dict.get\<close> without a default).
  Strings are compared lexicographically, character by character, as Python does.
\<close>

datatype val = VNone | VInt int | VStr string

datatype error = KeyError string | TypeError | ValueError

text \<open>
  A Python dict is an association list: \<open>map_of\<close> reads a key, \<open>AList.update\<close> stores one
  (in place when the key exists, at the end otherwise, which is the insertion order of a
  dict). A record and a stream state are dicts from field names to values; the temporary
  state object maps a stream name to a stream state.
\<close>

type_synonym dict = "(string \<times> val) list"

type_synonym bridge = "(string \<times> dict) list"

text \<open>\<open>d.get(k, default)\<close>\<close>

definition dict_get :: "dict \<Rightarrow> string \<Rightarrow> val \<Rightarrow> val" where
  "dict_get d k dflt = (case map_of d k of None \<Rightarrow> dflt | Some v \<Rightarrow> v)"

text \<open>
  Truth value testing: \<open>None\<close>, \<open>0\<close> and the empty string are false; so are \<open>None\<close> and the
  empty dict where a dict is expected (\<open>stream_state: Mapping = None\<close>).
\<close>

fun truthy :: "val \<Rightarrow> bool" where
  "truthy VNone = False"
| "truthy (VInt i) = (i \<noteq> 0)"
| "truthy (VStr s) = (s \<noteq> [])"

fun dict_truthy :: "('k \<times> 'v) list option \<Rightarrow> bool" where
  "dict_truthy None = False"
| "dict_truthy (Some d) = (d \<noteq> [])"

text \<open>
  \<open>a < b\<close>: defined between two integers and between two strings; every other pair raises
  TypeError (\<open>'<' not supported between instances of ...\<close>). \<open>a > b\<close> and \<open>a >= b\<close> likewise.
\<close>

fun py_lt :: "val \<Rightarrow> val \<Rightarrow> error + bool" where
  "py_lt (VInt a) (VInt b) = Inr (a < b)"
| "py_lt (VStr a) (VStr b) = Inr (a < b)"
| "py_lt _ _ = Inl TypeError"

fun py_gt :: "val \<Rightarrow> val \<Rightarrow> error + bool" where
  "py_gt (VInt a) (VInt b) = Inr (a > b)"
| "py_gt (VStr a) (VStr b) = Inr (a > b)"
| "py_gt _ _ = Inl TypeError"

fun py_ge :: "val \<Rightarrow> val \<Rightarrow> error + bool" where
  "py_ge (VInt a) (VInt b) = Inr (a \<ge> b)"
| "py_ge (VStr a) (VStr b) = Inr (a \<ge> b)"
| "py_ge _ _ = Inl TypeError"

text \<open>
  The builtins on two arguments: \<open>min(a, b)\<close> keeps \<open>a\<close> unless \<open>b < a\<close>, \<open>max(a, b)\<close> keeps
  \<open>a\<close> unless \<open>b > a\<close>.
\<close>

definition py_min :: "val \<Rightarrow> val \<Rightarrow> error + val" where
  "py_min a b = (case py_lt b a of Inl e \<Rightarrow> Inl e | Inr c \<Rightarrow> Inr (if c then b else a))"

definition py_max :: "val \<Rightarrow> val \<Rightarrow> error + val" where
  "py_max a b = (case py_gt b a of Inl e \<Rightarrow> Inl e | Inr c \<Rightarrow> Inr (if c then b else a))"

text \<open>\<open>str(v)\<close>, as an f-string formats a value.\<close>

function digits10 :: "nat \<Rightarrow> string" where
  "digits10 n =
     (if n < 10 then [''0123456789'' ! n]
      else digits10 (n div 10) @ [''0123456789'' ! (n mod 10)])"
  by pat_completeness auto
termination
  by (relation "measure (\<lambda>n. n)") auto

fun py_str :: "val \<Rightarrow> string" where
  "py_str VNone = ''None''"
| "py_str (VInt i) = (if i < 0 then CHR ''-'' # digits10 (nat (- i)) else digits10 (nat i))"
| "py_str (VStr s) = s"

section \<open>The streams\<close>

text \<open>
  The fourteen concrete classes of \<open>source.py\<close>, all subclasses of
  \<open>IncrementalShopifyStream\<close>; the three children of orders also of \<open>OrderSubstream\<close>.
  Class attributes are functions of the class.
\<close>

datatype stream =
    Customers | Orders | DraftOrders | Products | AbandonedCheckouts | Metafields
  | CustomCollections | Collects | OrderRefunds | OrderRisks | Transactions | Pages
  | PriceRules | DiscountCodes

record config =
  start_date :: val
  shop :: string

definition limit :: int where
  "limit = 250"

fun data_field :: "stream \<Rightarrow> string" where
  "data_field Customers = ''customers''"
| "data_field Orders = ''orders''"
| "data_field DraftOrders = ''draft_orders''"
| "data_field Products = ''products''"
| "data_field AbandonedCheckouts = ''checkouts''"
| "data_field Metafields = ''metafields''"
| "data_field CustomCollections = ''custom_collections''"
| "data_field Collects = ''collects''"
| "data_field OrderRefunds = ''refunds''"
| "data_field OrderRisks = ''risks''"
| "data_field Transactions = ''transactions''"
| "data_field Pages = ''pages''"
| "data_field PriceRules = ''price_rules''"
| "data_field DiscountCodes = ''discount_codes''"

fun cursor_field :: "stream \<Rightarrow> string" where
  "cursor_field Collects = ''id''"
| "cursor_field OrderRefunds = ''created_at''"
| "cursor_field OrderRisks = ''id''"
| "cursor_field Transactions = ''created_at''"
| "cursor_field _ = ''updated_at''"

fun order_field :: "stream \<Rightarrow> string" where
  "order_field Collects = ''id''"
| "order_field OrderRefunds = ''created_at''"
| "order_field OrderRisks = ''id''"
| "order_field Transactions = ''created_at''"
| "order_field _ = ''updated_at''"

fun filter_field :: "stream \<Rightarrow> string" where
  "filter_field Collects = ''since_id''"
| "filter_field OrderRefunds = ''created_at_min''"
| "filter_field OrderRisks = ''since_id''"
| "filter_field Transactions = ''created_at_min''"
| "filter_field _ = ''updated_at_min''"

text \<open>
  \<open>self.name\<close> is inherited from the CDK's \<open>Stream\<close>: the class name in snake case. The
  source relies on it where a child stream reads the entry \<open>"orders"\<close> (and
  \<open>"price_rules"\<close>) that the parent stored under its own name.
\<close>

fun name :: "stream \<Rightarrow> string" where
  "name Customers = ''customers''"
| "name Orders = ''orders''"
| "name DraftOrders = ''draft_orders''"
| "name Products = ''products''"
| "name AbandonedCheckouts = ''abandoned_checkouts''"
| "name Metafields = ''metafields''"
| "name CustomCollections = ''custom_collections''"
| "name Collects = ''collects''"
| "name OrderRefunds = ''order_refunds''"
| "name OrderRisks = ''order_risks''"
| "name Transactions = ''transactions''"
| "name Pages = ''pages''"
| "name PriceRules = ''price_rules''"
| "name DiscountCodes = ''discount_codes''"

section \<open>The temporary state object and the stream state\<close>

text \<open>
  \<open>IncrementalShopifyStream.stream_state_to_tmp\<close>. The state object is mutated in place
  and returned; the model returns the object as the call leaves it, together with the
  exception if one was raised (the second \<open>min\<close> can raise after the first assignment has
  been made).
\<close>

definition tmp_value :: "bridge \<Rightarrow> string \<Rightarrow> string \<Rightarrow> val" where
  \<comment> \<open>\<open>state_object.get(stream_name, {}).get(cursor_field, "")\<close>\<close>
  "tmp_value state_object stream_name cf =
     dict_get (case map_of state_object stream_name of None \<Rightarrow> [] | Some d \<Rightarrow> d) cf (VStr [])"

definition stream_state_to_tmp ::
  "string \<Rightarrow> dict \<Rightarrow> dict \<Rightarrow> bridge \<Rightarrow> string \<Rightarrow> bridge \<times> error option" where
  "stream_state_to_tmp stream_name current_stream_state latest_record state_object cf =
     (let tmp_stream_state_value = tmp_value state_object stream_name cf
      in if current_stream_state \<noteq> [] then
           (case py_min (dict_get current_stream_state cf (VStr []))
                        (dict_get latest_record cf (VStr [])) of
              Inl e \<Rightarrow> (state_object, Some e)
            | Inr v \<Rightarrow>
                let state_object1 = AList.update stream_name [(cf, v)] state_object
                in if truthy tmp_stream_state_value then
                     (case py_min (dict_get current_stream_state cf (VStr []))
                                  tmp_stream_state_value of
                        Inl e \<Rightarrow> (state_object1, Some e)
                      | Inr w \<Rightarrow> (AList.update stream_name [(cf, w)] state_object1, None))
                   else (state_object1, None))
         else (state_object, None))"

text \<open>
  \<open>get_updated_state\<close>: the version of \<open>IncrementalShopifyStream\<close> first updates the
  temporary state object \<open>tmp_stream_state\<close> (shared by all streams), then returns the new
  stream state; \<open>Collects\<close> and \<open>OrderRisks\<close> override it and leave the object alone.
\<close>

definition id_cursored :: "stream \<Rightarrow> bool" where
  "id_cursored s = (s = Collects \<or> s = OrderRisks)"

definition get_updated_state ::
  "stream \<Rightarrow> dict \<Rightarrow> dict \<Rightarrow> bridge \<Rightarrow> bridge \<times> (error + dict)" where
  "get_updated_state s current_stream_state latest_record tmp_stream_state =
     (if id_cursored s then
        (tmp_stream_state,
         case py_max (dict_get latest_record (cursor_field s) (VInt 0))
                     (dict_get current_stream_state (cursor_field s) (VInt 0)) of
           Inl e \<Rightarrow> Inl e
         | Inr m \<Rightarrow> Inr [(cursor_field s, m)])
      else
        (case stream_state_to_tmp (name s) current_stream_state latest_record
                tmp_stream_state (cursor_field s) of
           (tmp', Some e) \<Rightarrow> (tmp', Inl e)
         | (tmp', None) \<Rightarrow>
             (tmp',
              case py_max (dict_get latest_record (cursor_field s) (VStr []))
                          (dict_get current_stream_state (cursor_field s) (VStr [])) of
                Inl e \<Rightarrow> Inl e
              | Inr m \<Rightarrow> Inr [(cursor_field s, m)])))"

section \<open>Pagination and request parameters\<close>

text \<open>
  \<open>ShopifyStream.next_page_token\<close>. \<open>response.links\<close> maps a relation name to a link, itself
  a dict of strings. The two library calls \<open>parse_qsl(urlparse(u).query)\<close> are the parameter
  \<open>query_pairs\<close>, applied to \<open>next_page.get("url")\<close>; \<open>dict(...)\<close> keeps the last value of a
  repeated key.
\<close>

definition dict_of_pairs :: "(string \<times> string) list \<Rightarrow> dict" where
  "dict_of_pairs ps = fold (\<lambda>(k, v). AList.update k (VStr v)) ps []"

definition next_page_token ::
  "(string option \<Rightarrow> error + (string \<times> string) list) \<Rightarrow>
   (string \<times> (string \<times> string) list) list \<Rightarrow> error + dict option" where
  "next_page_token query_pairs links =
     (case map_of links ''next'' of
        None \<Rightarrow> Inr None
      | Some next_page \<Rightarrow>
          if next_page \<noteq> [] then
            (case query_pairs (map_of next_page ''url'') of
               Inl e \<Rightarrow> Inl e
             | Inr ps \<Rightarrow> Inr (Some (dict_of_pairs ps)))
          else Inr None)"

text \<open>
  An instance of \<open>query_pairs\<close> for URLs without percent escapes, \<open>+\<close> or brackets (where
  the library decodes, or raises ValueError): the query is what follows the first \<open>?\<close>
  in the part before the first \<open>#\<close>; it is cut at every \<open>&\<close>; a piece without \<open>=\<close> or
  with nothing after its first \<open>=\<close> is dropped. A link without \<open>url\<close> has no query.
\<close>

definition url_query :: "string \<Rightarrow> string" where
  "url_query u = drop 1 (dropWhile (\<lambda>c. c \<noteq> CHR ''?'') (takeWhile (\<lambda>c. c \<noteq> CHR ''#'') u))"

fun split_on :: "char \<Rightarrow> string \<Rightarrow> string \<Rightarrow> string list" where
  "split_on sep acc [] = [rev acc]"
| "split_on sep acc (c # cs) =
     (if c = sep then rev acc # split_on sep [] cs else split_on sep (c # acc) cs)"

definition name_value :: "string \<Rightarrow> (string \<times> string) list" where
  "name_value nv =
     (let n = takeWhile (\<lambda>c. c \<noteq> CHR ''='') nv;
          v = drop 1 (dropWhile (\<lambda>c. c \<noteq> CHR ''='') nv)
      in if v \<noteq> [] then [(n, v)] else [])"

definition url_query_pairs :: "string option \<Rightarrow> error + (string \<times> string) list" where
  "url_query_pairs u =
     (case u of
        None \<Rightarrow> Inr []
      | Some url \<Rightarrow> Inr (concat (map name_value (split_on (CHR ''&'') [] (url_query url)))))"

text \<open>\<open>params.update(**next_page_token)\<close>\<close>

definition dict_update_all :: "dict \<Rightarrow> dict \<Rightarrow> dict" where
  "dict_update_all params other = fold (\<lambda>(k, v). AList.update k v) other params"

text \<open>\<open>ShopifyStream.request_params\<close>\<close>

definition shopify_request_params :: "stream \<Rightarrow> config \<Rightarrow> dict option \<Rightarrow> dict" where
  "shopify_request_params s cfg next_page_token' =
     (let params = [(''limit'', VInt limit)]
      in case next_page_token' of
           Some tok \<Rightarrow>
             if tok \<noteq> [] then dict_update_all params tok
             else AList.update (filter_field s) (start_date cfg)
                    (AList.update ''order'' (VStr (order_field s @ '' asc'')) params)
         | None \<Rightarrow>
             AList.update (filter_field s) (start_date cfg)
               (AList.update ''order'' (VStr (order_field s @ '' asc'')) params))"

text \<open>\<open>IncrementalShopifyStream.request_params\<close>; \<open>stream_state.get(self.cursor_field)\<close> is
  \<open>None\<close> when the state has no such key.\<close>

definition incremental_request_params ::
  "stream \<Rightarrow> config \<Rightarrow> dict option \<Rightarrow> dict option \<Rightarrow> dict" where
  "incremental_request_params s cfg stream_state next_page_token' =
     (let params = shopify_request_params s cfg next_page_token'
      in if \<not> dict_truthy next_page_token' then
           (let params1 = AList.update ''order'' (VStr (order_field s @ '' asc'')) params
            in case stream_state of
                 Some st \<Rightarrow>
                   if st \<noteq> [] then
                     AList.update (filter_field s) (dict_get st (cursor_field s) VNone) params1
                   else params1
               | None \<Rightarrow> params1)
         else params)"

text \<open>
  \<open>request_params\<close> of each concrete class: \<open>Orders\<close> and \<open>AbandonedCheckouts\<close> add
  \<open>status\<close>, \<open>Collects\<close> and \<open>OrderRisks\<close> seed the filter, the others inherit.
\<close>

fun request_params :: "stream \<Rightarrow> config \<Rightarrow> dict option \<Rightarrow> dict option \<Rightarrow> dict" where
  "request_params Orders cfg stream_state next_page_token' =
     (let params = incremental_request_params Orders cfg stream_state next_page_token'
      in if \<not> dict_truthy next_page_token' then AList.update ''status'' (VStr ''any'') params
         else params)"
| "request_params AbandonedCheckouts cfg stream_state next_page_token' =
     (let params = incremental_request_params AbandonedCheckouts cfg stream_state next_page_token'
      in if \<not> dict_truthy next_page_token' then AList.update ''status'' (VStr ''any'') params
         else params)"
| "request_params Collects cfg stream_state next_page_token' =
     (let params = incremental_request_params Collects cfg stream_state next_page_token'
      in if \<not> dict_truthy next_page_token' \<and> \<not> dict_truthy stream_state
         then AList.update (filter_field Collects) (VInt 0) params
         else params)"
| "request_params OrderRisks cfg stream_state next_page_token' =
     (let params = incremental_request_params OrderRisks cfg stream_state next_page_token'
      in if \<not> dict_truthy next_page_token' \<and> \<not> dict_truthy stream_state
         then AList.update (filter_field OrderRisks) (VInt 0) params
         else params)"
| "request_params s cfg stream_state next_page_token' =
     incremental_request_params s cfg stream_state next_page_token'"

section \<open>Filtering and slicing\<close>

text \<open>
  \<open>IncrementalShopifyStream.filter_records_newer_than_state\<close> is a generator: the model
  gives the records it yields, in order, and the exception that ends it, if any.
  \<open>record[self.cursor_field]\<close> raises KeyError on a missing key, and is evaluated before
  \<open>stream_state.get(self.cursor_field)\<close> and the comparison.
\<close>

fun records_newer_than :: "string \<Rightarrow> dict \<Rightarrow> dict list \<Rightarrow> dict list \<times> error option" where
  "records_newer_than cf st [] = ([], None)"
| "records_newer_than cf st (record # rest) =
     (case map_of record cf of
        None \<Rightarrow> ([], Some (KeyError cf))
      | Some v \<Rightarrow>
          (case py_ge v (dict_get st cf VNone) of
             Inl e \<Rightarrow> ([], Some e)
           | Inr keep \<Rightarrow>
               (case records_newer_than cf st rest of
                  (ys, e) \<Rightarrow> ((if keep then record # ys else ys), e))))"

definition filter_records_newer_than_state ::
  "stream \<Rightarrow> dict option \<Rightarrow> dict list \<Rightarrow> dict list \<times> error option" where
  "filter_records_newer_than_state s stream_state records_slice =
     (case stream_state of
        Some st \<Rightarrow>
          if st \<noteq> [] then records_newer_than (cursor_field s) st records_slice
          else (records_slice, None)
      | None \<Rightarrow> (records_slice, None))"

text \<open>
  \<open>path\<close>: the children of orders and of price rules index the slice
  (\<open>stream_slice["order_id"]\<close>), the others ignore it.
\<close>

definition slice_path :: "string \<Rightarrow> string \<Rightarrow> string \<Rightarrow> dict option \<Rightarrow> error + string" where
  "slice_path parent key resource stream_slice =
     (case stream_slice of
        None \<Rightarrow> Inl TypeError
      | Some sl \<Rightarrow>
          (case map_of sl key of
             None \<Rightarrow> Inl (KeyError key)
           | Some v \<Rightarrow> Inr (parent @ ''/'' @ py_str v @ ''/'' @ resource @ ''.json'')))"

fun path :: "stream \<Rightarrow> dict option \<Rightarrow> error + string" where
  "path OrderRefunds sl = slice_path ''orders'' ''order_id'' (data_field OrderRefunds) sl"
| "path OrderRisks sl = slice_path ''orders'' ''order_id'' (data_field OrderRisks) sl"
| "path Transactions sl = slice_path ''orders'' ''order_id'' (data_field Transactions) sl"
| "path DiscountCodes sl =
     slice_path ''price_rules'' ''price_rule_id'' (data_field DiscountCodes) sl"
| "path s sl = Inr (data_field s @ ''.json'')"

text \<open>
  \<open>OrderSubstream.read_records\<close>. The CDK's \<open>HttpStream.read_records\<close> is a parameter on
  both sides: \<open>orders_read st\<close> is the list of records that
  \<open>Orders(self.config).read_records(stream_state=st)\<close> yields, and \<open>http_read p\<close> the records
  that one fetch cycle (\<open>super().read_records(stream_slice=...)\<close>, all its pages) yields
  from the endpoint \<open>p\<close>, which the CDK asks \<open>self.path\<close> for. The model returns the paths
  of the fetch cycles issued, the records yielded and the exception that ends the
  generator, if any.
\<close>

fun order_slices ::
  "stream \<Rightarrow> (string \<Rightarrow> dict list) \<Rightarrow> dict option \<Rightarrow> dict list \<Rightarrow>
   string list \<times> dict list \<times> error option" where
  "order_slices s http_read stream_state [] = ([], [], None)"
| "order_slices s http_read stream_state (data # rest) =
     (case map_of data ''id'' of
        None \<Rightarrow> ([], [], Some (KeyError ''id''))
      | Some i \<Rightarrow>
          (case path s (Some [(''order_id'', i)]) of
             Inl e \<Rightarrow> ([], [], Some e)
           | Inr p \<Rightarrow>
               (case filter_records_newer_than_state s stream_state (http_read p) of
                  (ys, Some e) \<Rightarrow> ([p], ys, Some e)
                | (ys, None) \<Rightarrow>
                    (case order_slices s http_read stream_state rest of
                       (ps, zs, e) \<Rightarrow> (p # ps, ys @ zs, e)))))"

definition read_records ::
  "stream \<Rightarrow> (dict option \<Rightarrow> dict list) \<Rightarrow> (string \<Rightarrow> dict list) \<Rightarrow> bridge \<Rightarrow>
   dict option \<Rightarrow> string list \<times> dict list \<times> error option" where
  "read_records s orders_read http_read tmp_stream_state stream_state =
     (let orders_stream_state = map_of tmp_stream_state ''orders''
      in order_slices s http_read stream_state (orders_read orders_stream_state))"


section \<open>Facts about the comparisons and the temporary state object\<close>

lemma py_min_str: "py_min (VStr a) (VStr b) = Inr (VStr (min a b))"
  by (auto simp: py_min_def min_def)

lemma py_max_str: "py_max (VStr a) (VStr b) = Inr (VStr (max a b))"
  by (auto simp: py_max_def max_def)

lemma py_min_int: "py_min (VInt a) (VInt b) = Inr (VInt (min a b))"
  by (auto simp: py_min_def min_def)

lemma py_max_int: "py_max (VInt a) (VInt b) = Inr (VInt (max a b))"
  by (auto simp: py_max_def max_def)

lemma tmp_value_update: "tmp_value (AList.update n [(cf, v)] b) n cf = v"
  by (simp add: tmp_value_def dict_get_def update_conv')


lemma stream_state_to_tmp_empty: "stream_state_to_tmp n [] latest b cf = (b, None)"
  by (simp add: stream_state_to_tmp_def)

lemma stream_state_to_tmp_str:
  assumes "dict_get cur cf (VStr []) = VStr c"
    and "dict_get latest cf (VStr []) = VStr l"
    and "tmp_value b n cf = VStr p"
  shows "stream_state_to_tmp n cur latest b cf =
     (if cur = [] then (b, None)
      else if p = [] then (AList.update n [(cf, VStr (min c l))] b, None)
      else (AList.update n [(cf, VStr (min c p))] b, None))"
  using assms by (simp add: stream_state_to_tmp_def py_min_str)

section \<open>C1: what the bridge update stores\<close>




section \<open>Request parameters\<close>

lemma map_of_fold_update:
  "distinct (map fst other) \<Longrightarrow>
   map_of (fold (\<lambda>(k, v). AList.update k v) other params) = map_of params ++ map_of other"
proof (induction other arbitrary: params)
  case Nil
  then show ?case by simp
next
  case (Cons kv other)
  obtain k v where kv: "kv = (k, v)" by (cases kv)
  from Cons.prems kv have notin: "map_of other k = None" and d: "distinct (map fst other)"
    by (auto simp: map_of_eq_None_iff)
  have "map_of (fold (\<lambda>(k, v). AList.update k v) (kv # other) params)
          = map_of (AList.update k v params) ++ map_of other"
    using Cons.IH [OF d, of "AList.update k v params"] kv by simp
  also have "\<dots> = (map_of params)(k \<mapsto> v) ++ map_of other"
    by (simp only: update_conv')
  also have "\<dots> = map_of params ++ map_of (kv # other)"
    using notin kv by (auto simp: map_add_def fun_eq_iff split: option.splits)
  finally show ?case .
qed

lemma shopify_request_params_token:
  "tok \<noteq> [] \<Longrightarrow>
   shopify_request_params s cfg (Some tok) = dict_update_all [(''limit'', VInt 250)] tok"
  by (simp add: shopify_request_params_def limit_def)

lemma incremental_request_params_token:
  "tok \<noteq> [] \<Longrightarrow>
   incremental_request_params s cfg st (Some tok) = dict_update_all [(''limit'', VInt 250)] tok"
  by (simp add: incremental_request_params_def shopify_request_params_token)

lemma request_params_token:
  "tok \<noteq> [] \<Longrightarrow>
   request_params s cfg st (Some tok) = dict_update_all [(''limit'', VInt 250)] tok"
  by (cases s) (simp_all add: incremental_request_params_token)

lemma filter_field_neq:
  "filter_field s \<noteq> ''order''" "filter_field s \<noteq> ''limit''" "filter_field s \<noteq> ''status''"
  "''order'' \<noteq> filter_field s" "''limit'' \<noteq> filter_field s" "''status'' \<noteq> filter_field s"
  by (cases s; simp)+

lemma incremental_first_page:
  assumes "\<not> dict_truthy tok"
  shows "map_of (incremental_request_params s cfg st tok) =
     [''limit'' \<mapsto> VInt 250, ''order'' \<mapsto> VStr (order_field s @ '' asc''),
      filter_field s \<mapsto>
        (if dict_truthy st then dict_get (the st) (cursor_field s) VNone else start_date cfg)]"
  using assms
  by (cases tok; cases st)
     (auto simp: incremental_request_params_def shopify_request_params_def limit_def
        update_conv' fun_eq_iff filter_field_neq)

lemma request_params_first_page_order:
  assumes "\<not> dict_truthy tok"
  shows "map_of (request_params s cfg st tok) ''order'' = Some (VStr (order_field s @ '' asc''))"
  using assms
  by (cases s)
     (simp_all add: Let_def incremental_first_page update_conv' filter_field_neq
        del: filter_field.simps order_field.simps)

lemma request_params_first_page_filter:
  assumes "\<not> dict_truthy tok"
  shows "map_of (request_params s cfg st tok) (filter_field s) =
     Some (case st of
             None \<Rightarrow> if id_cursored s then VInt 0 else start_date cfg
           | Some d \<Rightarrow> if d \<noteq> [] then dict_get d (cursor_field s) VNone
                       else if id_cursored s then VInt 0 else start_date cfg)"
  using assms
  by (cases s; cases st) (simp_all add: incremental_first_page update_conv' id_cursored_def)

subsection \<open>C2: the parameters sent with a pagination token\<close>

text \<open>
  C2, as stated: with a non-empty token the parameters are only the token's own. The code
  always starts from \<open>{"limit": 250}\<close>: with the token \<open>{"page_info": "abc"}\<close>, which has
  no \<open>limit\<close> of its own, \<open>Orders\<close> sends \<open>limit\<close> beside \<open>page_info\<close>.
\<close>

theorem request_params_token_only_counterexample:
  "request_params Orders \<lparr>start_date = VStr ''2021-01-01'', shop = ''shop''\<rparr> None
       (Some [(''page_info'', VStr ''abc'')])
     = [(''limit'', VInt 250), (''page_info'', VStr ''abc'')]
   \<and> map_of [(''page_info'', VStr ''abc'')] ''limit'' = None"
  by (simp add: incremental_request_params_def shopify_request_params_def dict_update_all_def
        limit_def)

text \<open>
  C2, amended: for every stream, state and non-empty token (a dict, so with distinct
  keys), the parameters sent are the page size \<open>limit = 250\<close> updated with the token's
  key/value pairs, and nothing else: a key of the token has the token's value (also
  \<open>limit\<close>, if the token has one), \<open>limit\<close> is 250 otherwise, and no other key is
  present, so no order, filter or status parameter is added to the token's.
\<close>

theorem request_params_with_token:
  assumes "tok \<noteq> []" and "distinct (map fst tok)"
  shows "request_params s cfg st (Some tok) = dict_update_all [(''limit'', VInt 250)] tok
       \<and> map_of (request_params s cfg st (Some tok)) = [''limit'' \<mapsto> VInt 250] ++ map_of tok"
  using assms by (simp add: request_params_token dict_update_all_def map_of_fold_update)

theorem request_params_with_token_witness:
  "[(''page_info'', VStr ''abc''), (''limit'', VStr ''50'')] \<noteq> []
   \<and> distinct (map fst [(''page_info'', VStr ''abc''), (''limit'', VStr ''50'')])
   \<and> request_params AbandonedCheckouts \<lparr>start_date = VStr ''2021-01-01'', shop = ''shop''\<rparr>
        (Some [(''updated_at'', VStr ''2021-03-01'')])
        (Some [(''page_info'', VStr ''abc''), (''limit'', VStr ''50'')])
       = [(''limit'', VStr ''50''), (''page_info'', VStr ''abc'')]"
proof -
  have h1: "[(''page_info'', VStr ''abc''), (''limit'', VStr ''50'')] \<noteq> []"
    by simp
  have h2: "distinct (map fst [(''page_info'', VStr ''abc''), (''limit'', VStr ''50'')])"
    by simp
  show ?thesis
    using h1 h2
      request_params_with_token [OF h1 h2, of AbandonedCheckouts
        "\<lparr>start_date = VStr ''2021-01-01'', shop = ''shop''\<rparr>"
        "Some [(''updated_at'', VStr ''2021-03-01'')]"]
    by (simp add: dict_update_all_def)
qed

subsection \<open>C6: the parameters of the first page\<close>

text \<open>
  C6: for every stream, without a pagination token (\<open>None\<close> or an empty one) the
  parameters hold \<open>order = "<order_field> asc"\<close>, and the stream's filter field holds the
  state's cursor value (\<open>stream_state.get(cursor_field)\<close>) when there is a non-empty
  state; without one it holds \<open>start_date\<close>, and \<open>0\<close> for Collects and OrderRisks.
\<close>

theorem request_params_first_page:
  assumes "\<not> dict_truthy tok"
  shows "map_of (request_params s cfg st tok) ''order'' = Some (VStr (order_field s @ '' asc''))
       \<and> map_of (request_params s cfg st tok) (filter_field s) =
           Some (case st of
                   None \<Rightarrow> if id_cursored s then VInt 0 else start_date cfg
                 | Some d \<Rightarrow> if d \<noteq> [] then dict_get d (cursor_field s) VNone
                             else if id_cursored s then VInt 0 else start_date cfg)"
  using assms request_params_first_page_order request_params_first_page_filter by blast

theorem request_params_first_page_witness:
  "\<not> dict_truthy (None :: dict option)
   \<and> map_of (request_params Collects \<lparr>start_date = VStr ''2021-01-01'', shop = ''shop''\<rparr>
               None None) ''order'' = Some (VStr ''id asc'')
   \<and> map_of (request_params Collects \<lparr>start_date = VStr ''2021-01-01'', shop = ''shop''\<rparr>
               None None) ''since_id'' = Some (VInt 0)
   \<and> map_of (request_params Orders \<lparr>start_date = VStr ''2021-01-01'', shop = ''shop''\<rparr>
               (Some [(''updated_at'', VStr ''2021-03-01'')]) None) ''updated_at_min''
       = Some (VStr ''2021-03-01'')
   \<and> map_of (request_params Orders \<lparr>start_date = VStr ''2021-01-01'', shop = ''shop''\<rparr>
               None None) ''updated_at_min'' = Some (VStr ''2021-01-01'')"
proof -
  have h: "\<not> dict_truthy (None :: dict option)"
    by simp
  show ?thesis
    using h
      request_params_first_page [OF h, of Collects
        "\<lparr>start_date = VStr ''2021-01-01'', shop = ''shop''\<rparr>" None]
      request_params_first_page [OF h, of Orders
        "\<lparr>start_date = VStr ''2021-01-01'', shop = ''shop''\<rparr>"
        "Some [(''updated_at'', VStr ''2021-03-01'')]"]
      request_params_first_page [OF h, of Orders
        "\<lparr>start_date = VStr ''2021-01-01'', shop = ''shop''\<rparr>" None]
    by (simp add: id_cursored_def dict_get_def)
qed

section \<open>The stream state and the temporary state object\<close>

lemma dict_get_single: "dict_get [(k, v)] k d = v"
  by (simp add: dict_get_def)

lemma tmp_value_after_str:
  assumes "dict_get cur cf (VStr []) = VStr c"
    and "dict_get latest cf (VStr []) = VStr l"
    and "tmp_value b n cf = VStr p"
  shows "\<exists>q. tmp_value (fst (stream_state_to_tmp n cur latest b cf)) n cf = VStr q"
  using assms by (simp add: stream_state_to_tmp_str tmp_value_update)

lemma get_updated_state_str:
  assumes "\<not> id_cursored s"
    and "dict_get cur (cursor_field s) (VStr []) = VStr c"
    and "dict_get latest (cursor_field s) (VStr []) = VStr l"
    and "tmp_value b (name s) (cursor_field s) = VStr p"
  shows "get_updated_state s cur latest b =
     (fst (stream_state_to_tmp (name s) cur latest b (cursor_field s)),
      Inr [(cursor_field s, VStr (max l c))])"
  using assms by (simp add: get_updated_state_def stream_state_to_tmp_str py_max_str)

lemma get_updated_state_int:
  assumes "id_cursored s"
    and "dict_get cur (cursor_field s) (VInt 0) = VInt c"
    and "dict_get latest (cursor_field s) (VInt 0) = VInt l"
  shows "get_updated_state s cur latest b = (b, Inr [(cursor_field s, VInt (max l c))])"
  using assms by (simp add: get_updated_state_def py_max_int)

lemma get_updated_state_returns:
  assumes "snd (get_updated_state s cur latest b) = Inr st"
  shows "\<exists>m. py_max
            (dict_get latest (cursor_field s) (if id_cursored s then VInt 0 else VStr []))
            (dict_get cur (cursor_field s) (if id_cursored s then VInt 0 else VStr [])) = Inr m
          \<and> st = [(cursor_field s, m)]"
  using assms
  by (auto simp: get_updated_state_def split: if_splits prod.splits option.splits sum.splits)

lemma py_max_idem: "py_max a b = Inr m \<Longrightarrow> py_max a m = Inr m"
  by (cases a; cases b) (auto simp: py_max_def split: if_splits)

lemma get_updated_state_idem:
  assumes "snd (get_updated_state s cur latest b) = Inr st"
    and "snd (get_updated_state s st latest b2) = Inr st2"
  shows "st2 = st"
proof -
  let ?d = "if id_cursored s then VInt 0 else VStr []"
  from get_updated_state_returns [OF assms(1)] obtain m where
    m: "py_max (dict_get latest (cursor_field s) ?d) (dict_get cur (cursor_field s) ?d) = Inr m"
    and st: "st = [(cursor_field s, m)]" by blast
  from get_updated_state_returns [OF assms(2)] obtain m2 where
    m2: "py_max (dict_get latest (cursor_field s) ?d) (dict_get st (cursor_field s) ?d) = Inr m2"
    and st2: "st2 = [(cursor_field s, m2)]" by blast
  from m2 st have "py_max (dict_get latest (cursor_field s) ?d) m = Inr m2"
    by (simp add: dict_get_single)
  with py_max_idem [OF m] have "m2 = m" by simp
  with st st2 show ?thesis by simp
qed










subsection \<open>C3: the updated stream state\<close>

text \<open>
  C3: \<open>get_updated_state\<close> returns \<open>{cursor_field: max(latest, current)}\<close>. Whenever it
  returns, the value is Python's \<open>max\<close> of the two cursor values, a missing one replaced
  by the empty string, and by \<open>0\<close> for Collects and OrderRisks. On string cursors the
  timestamp streams do return, with the lexicographic maximum (the temporary state
  object holding a string for the stream, or nothing); on integer cursors Collects and
  OrderRisks return the numeric maximum and leave the temporary state object alone.
  Applied again to the state it returned and the same record, it returns that state; for
  values of any type, a second application that returns, returns the same state.
\<close>

theorem get_updated_state_max:
  "(\<not> id_cursored s \<and> dict_get cur (cursor_field s) (VStr []) = VStr c
      \<and> dict_get latest (cursor_field s) (VStr []) = VStr l
      \<and> tmp_value b (name s) (cursor_field s) = VStr p
    \<longrightarrow> snd (get_updated_state s cur latest b) = Inr [(cursor_field s, VStr (max l c))]
      \<and> snd (get_updated_state s [(cursor_field s, VStr (max l c))] latest
                (fst (get_updated_state s cur latest b)))
          = Inr [(cursor_field s, VStr (max l c))])
   \<and> (id_cursored s \<and> dict_get cur (cursor_field s) (VInt 0) = VInt ci
      \<and> dict_get latest (cursor_field s) (VInt 0) = VInt li
    \<longrightarrow> get_updated_state s cur latest b = (b, Inr [(cursor_field s, VInt (max li ci))])
      \<and> get_updated_state s [(cursor_field s, VInt (max li ci))] latest b
          = (b, Inr [(cursor_field s, VInt (max li ci))]))
   \<and> (snd (get_updated_state s cur latest b) = Inr st
    \<longrightarrow> (\<exists>m. py_max
               (dict_get latest (cursor_field s) (if id_cursored s then VInt 0 else VStr []))
               (dict_get cur (cursor_field s) (if id_cursored s then VInt 0 else VStr []))
              = Inr m
            \<and> st = [(cursor_field s, m)]))
   \<and> (snd (get_updated_state s cur latest b) = Inr st
       \<and> snd (get_updated_state s st latest b2) = Inr st2
    \<longrightarrow> st2 = st)"
proof (intro conjI impI)
  assume a: "\<not> id_cursored s \<and> dict_get cur (cursor_field s) (VStr []) = VStr c
      \<and> dict_get latest (cursor_field s) (VStr []) = VStr l
      \<and> tmp_value b (name s) (cursor_field s) = VStr p"
  then have 1: "get_updated_state s cur latest b =
     (fst (stream_state_to_tmp (name s) cur latest b (cursor_field s)),
      Inr [(cursor_field s, VStr (max l c))])"
    by (simp add: get_updated_state_str)
  then show "snd (get_updated_state s cur latest b) = Inr [(cursor_field s, VStr (max l c))]"
    by simp
  from a obtain q where
    q: "tmp_value (fst (stream_state_to_tmp (name s) cur latest b (cursor_field s)))
          (name s) (cursor_field s) = VStr q"
    using tmp_value_after_str by blast
  have "get_updated_state s [(cursor_field s, VStr (max l c))] latest
          (fst (stream_state_to_tmp (name s) cur latest b (cursor_field s)))
        = (fst (stream_state_to_tmp (name s) [(cursor_field s, VStr (max l c))] latest
                  (fst (stream_state_to_tmp (name s) cur latest b (cursor_field s)))
                  (cursor_field s)),
           Inr [(cursor_field s, VStr (max l (max l c)))])"
    using a q by (intro get_updated_state_str) (simp_all add: dict_get_single)
  then show "snd (get_updated_state s [(cursor_field s, VStr (max l c))] latest
                (fst (get_updated_state s cur latest b)))
          = Inr [(cursor_field s, VStr (max l c))]"
    by (simp add: 1)
next
  assume a: "id_cursored s \<and> dict_get cur (cursor_field s) (VInt 0) = VInt ci
      \<and> dict_get latest (cursor_field s) (VInt 0) = VInt li"
  then show "get_updated_state s cur latest b = (b, Inr [(cursor_field s, VInt (max li ci))])"
    by (simp add: get_updated_state_int)
  have "get_updated_state s [(cursor_field s, VInt (max li ci))] latest b
          = (b, Inr [(cursor_field s, VInt (max li (max li ci)))])"
    using a by (intro get_updated_state_int) (simp_all add: dict_get_single)
  then show "get_updated_state s [(cursor_field s, VInt (max li ci))] latest b
          = (b, Inr [(cursor_field s, VInt (max li ci))])"
    by simp
next
  assume "snd (get_updated_state s cur latest b) = Inr st"
  then show "\<exists>m. py_max
               (dict_get latest (cursor_field s) (if id_cursored s then VInt 0 else VStr []))
               (dict_get cur (cursor_field s) (if id_cursored s then VInt 0 else VStr []))
              = Inr m
            \<and> st = [(cursor_field s, m)]"
    by (rule get_updated_state_returns)
next
  assume "snd (get_updated_state s cur latest b) = Inr st
       \<and> snd (get_updated_state s st latest b2) = Inr st2"
  then show "st2 = st"
    using get_updated_state_idem by blast
qed

theorem get_updated_state_max_witness:
  "\<not> id_cursored Orders
   \<and> dict_get [(''updated_at'', VStr ''2021-02-01'')] ''updated_at'' (VStr []) = VStr ''2021-02-01''
   \<and> dict_get [(''updated_at'', VStr ''2021-01-15'')] ''updated_at'' (VStr []) = VStr ''2021-01-15''
   \<and> tmp_value [] ''orders'' ''updated_at'' = VStr []
   \<and> snd (get_updated_state Orders [(''updated_at'', VStr ''2021-02-01'')]
            [(''updated_at'', VStr ''2021-01-15'')] [])
       = Inr [(''updated_at'', VStr ''2021-02-01'')]
   \<and> id_cursored Collects
   \<and> dict_get [] ''id'' (VInt 0) = VInt 0
   \<and> dict_get [(''id'', VInt 3)] ''id'' (VInt 0) = VInt 3
   \<and> get_updated_state Collects [] [(''id'', VInt 3)] [] = ([], Inr [(''id'', VInt 3)])"
proof -
  have h1: "\<not> id_cursored Orders
      \<and> dict_get [(''updated_at'', VStr ''2021-02-01'')] (cursor_field Orders) (VStr [])
          = VStr ''2021-02-01''
      \<and> dict_get [(''updated_at'', VStr ''2021-01-15'')] (cursor_field Orders) (VStr [])
          = VStr ''2021-01-15''
      \<and> tmp_value [] (name Orders) (cursor_field Orders) = VStr []"
    by (simp add: id_cursored_def dict_get_def tmp_value_def)
  have h2: "id_cursored Collects
      \<and> dict_get [] (cursor_field Collects) (VInt 0) = VInt 0
      \<and> dict_get [(''id'', VInt 3)] (cursor_field Collects) (VInt 0) = VInt 3"
    by (simp add: id_cursored_def dict_get_def)
  have c1: "snd (get_updated_state Orders [(''updated_at'', VStr ''2021-02-01'')]
            [(''updated_at'', VStr ''2021-01-15'')] [])
       = Inr [(cursor_field Orders, VStr (max ''2021-01-15'' ''2021-02-01''))]"
    using h1 get_updated_state_max [where s = Orders
        and cur = "[(''updated_at'', VStr ''2021-02-01'')]"
        and latest = "[(''updated_at'', VStr ''2021-01-15'')]"
        and b = "[]" and c = "''2021-02-01''" and l = "''2021-01-15''" and p = "[]"]
    by blast
  have c2: "get_updated_state Collects [] [(''id'', VInt 3)] []
       = ([], Inr [(cursor_field Collects, VInt (max 3 0))])"
    using h2 get_updated_state_max [where s = Collects and cur = "[]"
        and latest = "[(''id'', VInt 3)]" and b = "[]" and ci = 0 and li = 3]
    by blast
  show ?thesis
    using h1 h2 c1 c2 by (simp add: max_def)
qed

subsection \<open>C4: the bridged value does not grow\<close>



section \<open>Filtering records against the state\<close>

lemma py_ge_error: "py_ge a b = Inl e \<Longrightarrow> e = TypeError"
  by (cases a; cases b) simp_all

lemma records_newer_than_ok:
  assumes "\<forall>r \<in> set rs. \<exists>v k. map_of r cf = Some v \<and> py_ge v (dict_get st cf VNone) = Inr k"
  shows "records_newer_than cf st rs =
     (filter (\<lambda>r. \<exists>v. map_of r cf = Some v \<and> py_ge v (dict_get st cf VNone) = Inr True) rs,
      None)"
  using assms by (induction rs) auto

lemma records_newer_than_append:
  assumes "\<forall>r \<in> set pre. \<exists>v k. map_of r cf = Some v \<and> py_ge v (dict_get st cf VNone) = Inr k"
  shows "records_newer_than cf st (pre @ rest) =
     (filter (\<lambda>r. \<exists>v. map_of r cf = Some v \<and> py_ge v (dict_get st cf VNone) = Inr True) pre
        @ fst (records_newer_than cf st rest),
      snd (records_newer_than cf st rest))"
  using assms by (induction pre) (auto split: prod.splits)

lemma records_newer_than_no_KeyError:
  assumes "\<forall>r \<in> set rs. map_of r cf \<noteq> None"
  shows "snd (records_newer_than cf st rs) \<noteq> Some (KeyError k)"
  using assms by (induction rs) (auto split: sum.splits prod.splits dest: py_ge_error)

lemma records_newer_than_missing:
  assumes "r \<in> set rs" and "map_of r cf = None"
  shows "snd (records_newer_than cf st rs) \<noteq> None"
  using assms by (induction rs) (auto split: sum.splits prod.splits option.splits)

lemma filter_records_no_state:
  "\<not> dict_truthy st \<Longrightarrow> filter_records_newer_than_state s st rs = (rs, None)"
  by (cases st) (simp_all add: filter_records_newer_than_state_def)

lemma filter_records_state:
  "d \<noteq> [] \<Longrightarrow>
   filter_records_newer_than_state s (Some d) rs = records_newer_than (cursor_field s) d rs"
  by (simp add: filter_records_newer_than_state_def)

subsection \<open>C5: the records kept\<close>

text \<open>
  C5: without a state (\<open>None\<close> or an empty one) every record is yielded unchanged. With a
  non-empty state, over records that each have a cursor value that Python can compare
  with the state's (both strings, or both integers), exactly the records whose cursor
  value is greater than or equal to the state's are yielded, in their order, and the
  generator ends without an exception.
\<close>

theorem filter_records_newer_than_state_keeps:
  "(\<not> dict_truthy st \<longrightarrow> filter_records_newer_than_state s st rs = (rs, None))
   \<and> (d \<noteq> []
       \<and> (\<forall>r \<in> set rs. \<exists>v k. map_of r (cursor_field s) = Some v
              \<and> py_ge v (dict_get d (cursor_field s) VNone) = Inr k)
      \<longrightarrow> filter_records_newer_than_state s (Some d) rs =
            (filter (\<lambda>r. \<exists>v. map_of r (cursor_field s) = Some v
                       \<and> py_ge v (dict_get d (cursor_field s) VNone) = Inr True) rs,
             None))"
  by (simp add: filter_records_no_state filter_records_state records_newer_than_ok)

theorem filter_records_newer_than_state_keeps_witness:
  "[(''created_at'', VStr ''2021-06-01'')] \<noteq> []
   \<and> filter_records_newer_than_state OrderRefunds (Some [(''created_at'', VStr ''2021-06-01'')])
        [[(''created_at'', VStr ''2021-05-01'')], [(''created_at'', VStr ''2021-06-01'')],
         [(''created_at'', VStr ''2021-07-01'')]]
       = ([[(''created_at'', VStr ''2021-06-01'')], [(''created_at'', VStr ''2021-07-01'')]], None)
   \<and> \<not> dict_truthy (None :: dict option)
   \<and> filter_records_newer_than_state OrderRefunds None
        [[(''id'', VInt 1)], [(''created_at'', VStr ''2021-07-01'')]]
       = ([[(''id'', VInt 1)], [(''created_at'', VStr ''2021-07-01'')]], None)"
proof -
  have h1: "[(''created_at'', VStr ''2021-06-01'')] \<noteq> []
     \<and> (\<forall>r \<in> set [[(''created_at'', VStr ''2021-05-01'')], [(''created_at'', VStr ''2021-06-01'')],
                    [(''created_at'', VStr ''2021-07-01'')]].
          \<exists>v k. map_of r (cursor_field OrderRefunds) = Some v
            \<and> py_ge v (dict_get [(''created_at'', VStr ''2021-06-01'')]
                         (cursor_field OrderRefunds) VNone) = Inr k)"
    by (auto simp: dict_get_def)
  have h2: "\<not> dict_truthy (None :: dict option)"
    by simp
  have c1: "filter_records_newer_than_state OrderRefunds
              (Some [(''created_at'', VStr ''2021-06-01'')])
              [[(''created_at'', VStr ''2021-05-01'')], [(''created_at'', VStr ''2021-06-01'')],
               [(''created_at'', VStr ''2021-07-01'')]]
       = (filter (\<lambda>r. \<exists>v. map_of r (cursor_field OrderRefunds) = Some v
                       \<and> py_ge v (dict_get [(''created_at'', VStr ''2021-06-01'')]
                                    (cursor_field OrderRefunds) VNone) = Inr True)
            [[(''created_at'', VStr ''2021-05-01'')], [(''created_at'', VStr ''2021-06-01'')],
             [(''created_at'', VStr ''2021-07-01'')]],
          None)"
    using h1 filter_records_newer_than_state_keeps [where s = OrderRefunds
        and d = "[(''created_at'', VStr ''2021-06-01'')]"
        and rs = "[[(''created_at'', VStr ''2021-05-01'')], [(''created_at'', VStr ''2021-06-01'')],
                   [(''created_at'', VStr ''2021-07-01'')]]"]
    by blast
  have c2: "filter_records_newer_than_state OrderRefunds None
        [[(''id'', VInt 1)], [(''created_at'', VStr ''2021-07-01'')]]
       = ([[(''id'', VInt 1)], [(''created_at'', VStr ''2021-07-01'')]], None)"
    using h2 filter_records_newer_than_state_keeps [where s = OrderRefunds and st = None
        and rs = "[[(''id'', VInt 1)], [(''created_at'', VStr ''2021-07-01'')]]"]
    by blast
  show ?thesis
    using h2 c1 c2 by (simp add: dict_get_def)
qed

subsection \<open>C10: when filtering fails\<close>

text \<open>
  C10, as stated: with a non-empty state, once every record contains the cursor field the
  operation is total. It is not: the comparison \<open>record[cursor_field] >= state.get(...)\<close>
  raises TypeError when the record's value is \<open>None\<close> (a JSON null), although the record
  contains the field.
\<close>

theorem filter_records_total_counterexample:
  "map_of [(''id'', VInt 7), (''created_at'', VNone)] ''created_at'' = Some VNone
   \<and> filter_records_newer_than_state OrderRefunds (Some [(''created_at'', VStr ''2021-06-01'')])
        [[(''id'', VInt 7), (''created_at'', VNone)]]
       = ([], Some TypeError)"
  by (simp add: filter_records_newer_than_state_def dict_get_def)

text \<open>
  C10, amended: with a non-empty state, the first record lacking the cursor field ends
  the generator with KeyError, after the records kept before it (those before it being
  comparable with the state), and any record lacking the field makes it fail. When every
  record contains the cursor field, KeyError is not raised; the operation is total when
  moreover every cursor value can be compared with the state's. Without a state, every
  record passes through, with or without the field.
\<close>

theorem filter_records_newer_than_state_errors:
  "(d \<noteq> [] \<and> map_of r (cursor_field s) = None
      \<and> (\<forall>x \<in> set pre. \<exists>v k. map_of x (cursor_field s) = Some v
              \<and> py_ge v (dict_get d (cursor_field s) VNone) = Inr k)
    \<longrightarrow> filter_records_newer_than_state s (Some d) (pre @ r # post) =
          (filter (\<lambda>x. \<exists>v. map_of x (cursor_field s) = Some v
                     \<and> py_ge v (dict_get d (cursor_field s) VNone) = Inr True) pre,
           Some (KeyError (cursor_field s))))
   \<and> (d \<noteq> [] \<and> r \<in> set rs \<and> map_of r (cursor_field s) = None
    \<longrightarrow> snd (filter_records_newer_than_state s (Some d) rs) \<noteq> None)
   \<and> (d \<noteq> [] \<and> (\<forall>x \<in> set rs. map_of x (cursor_field s) \<noteq> None)
    \<longrightarrow> snd (filter_records_newer_than_state s (Some d) rs) \<noteq> Some (KeyError k))
   \<and> (d \<noteq> []
       \<and> (\<forall>x \<in> set rs. \<exists>v k. map_of x (cursor_field s) = Some v
              \<and> py_ge v (dict_get d (cursor_field s) VNone) = Inr k)
    \<longrightarrow> snd (filter_records_newer_than_state s (Some d) rs) = None)
   \<and> (\<not> dict_truthy st \<longrightarrow> filter_records_newer_than_state s st rs = (rs, None))"
proof (intro conjI impI)
  assume a: "d \<noteq> [] \<and> map_of r (cursor_field s) = None
      \<and> (\<forall>x \<in> set pre. \<exists>v k. map_of x (cursor_field s) = Some v
              \<and> py_ge v (dict_get d (cursor_field s) VNone) = Inr k)"
  then have "records_newer_than (cursor_field s) d (pre @ r # post) =
     (filter (\<lambda>x. \<exists>v. map_of x (cursor_field s) = Some v
                \<and> py_ge v (dict_get d (cursor_field s) VNone) = Inr True) pre
        @ fst (records_newer_than (cursor_field s) d (r # post)),
      snd (records_newer_than (cursor_field s) d (r # post)))"
    by (intro records_newer_than_append) simp
  with a show "filter_records_newer_than_state s (Some d) (pre @ r # post) =
          (filter (\<lambda>x. \<exists>v. map_of x (cursor_field s) = Some v
                     \<and> py_ge v (dict_get d (cursor_field s) VNone) = Inr True) pre,
           Some (KeyError (cursor_field s)))"
    by (simp add: filter_records_state)
next
  assume "d \<noteq> [] \<and> r \<in> set rs \<and> map_of r (cursor_field s) = None"
  then show "snd (filter_records_newer_than_state s (Some d) rs) \<noteq> None"
    using records_newer_than_missing [of r rs "cursor_field s" d]
    by (simp add: filter_records_state)
next
  assume "d \<noteq> [] \<and> (\<forall>x \<in> set rs. map_of x (cursor_field s) \<noteq> None)"
  then show "snd (filter_records_newer_than_state s (Some d) rs) \<noteq> Some (KeyError k)"
    by (simp add: filter_records_state records_newer_than_no_KeyError)
next
  assume "d \<noteq> []
       \<and> (\<forall>x \<in> set rs. \<exists>v k. map_of x (cursor_field s) = Some v
              \<and> py_ge v (dict_get d (cursor_field s) VNone) = Inr k)"
  then show "snd (filter_records_newer_than_state s (Some d) rs) = None"
    by (simp add: filter_records_state records_newer_than_ok)
next
  assume "\<not> dict_truthy st"
  then show "filter_records_newer_than_state s st rs = (rs, None)"
    by (rule filter_records_no_state)
qed

theorem filter_records_newer_than_state_errors_witness:
  "[(''id'', VInt 5)] \<noteq> []
   \<and> map_of [(''risk'', VStr ''high'')] ''id'' = None
   \<and> filter_records_newer_than_state OrderRisks (Some [(''id'', VInt 5)])
        ([[(''id'', VInt 4)], [(''id'', VInt 6)]] @ [(''risk'', VStr ''high'')] # [[(''id'', VInt 9)]])
       = ([[(''id'', VInt 6)]], Some (KeyError ''id''))
   \<and> snd (filter_records_newer_than_state OrderRisks (Some [(''id'', VInt 5)])
            [[(''id'', VInt 4)], [(''id'', VInt 6)]]) = None
   \<and> \<not> dict_truthy (Some ([] :: dict))
   \<and> filter_records_newer_than_state OrderRisks (Some []) [[(''risk'', VStr ''high'')]]
       = ([[(''risk'', VStr ''high'')]], None)"
proof -
  have h1: "[(''id'', VInt 5)] \<noteq> [] \<and> map_of [(''risk'', VStr ''high'')] (cursor_field OrderRisks) = None
      \<and> (\<forall>x \<in> set [[(''id'', VInt 4)], [(''id'', VInt 6)]].
            \<exists>v k. map_of x (cursor_field OrderRisks) = Some v
              \<and> py_ge v (dict_get [(''id'', VInt 5)] (cursor_field OrderRisks) VNone) = Inr k)"
    by (auto simp: dict_get_def)
  have h2: "\<not> dict_truthy (Some ([] :: dict))"
    by simp
  note t = filter_records_newer_than_state_errors [where s = OrderRisks
        and d = "[(''id'', VInt 5)]" and r = "[(''risk'', VStr ''high'')]"
        and pre = "[[(''id'', VInt 4)], [(''id'', VInt 6)]]" and post = "[[(''id'', VInt 9)]]"
        and rs = "[[(''id'', VInt 4)], [(''id'', VInt 6)]]"]
  have c1: "filter_records_newer_than_state OrderRisks (Some [(''id'', VInt 5)])
        ([[(''id'', VInt 4)], [(''id'', VInt 6)]] @ [(''risk'', VStr ''high'')] # [[(''id'', VInt 9)]])
       = (filter (\<lambda>x. \<exists>v. map_of x (cursor_field OrderRisks) = Some v
                     \<and> py_ge v (dict_get [(''id'', VInt 5)] (cursor_field OrderRisks) VNone)
                         = Inr True) [[(''id'', VInt 4)], [(''id'', VInt 6)]],
          Some (KeyError (cursor_field OrderRisks)))"
    using h1 t by blast
  have c2: "snd (filter_records_newer_than_state OrderRisks (Some [(''id'', VInt 5)])
            [[(''id'', VInt 4)], [(''id'', VInt 6)]]) = None"
    using h1 t by blast
  have c3: "filter_records_newer_than_state OrderRisks (Some []) [[(''risk'', VStr ''high'')]]
       = ([[(''risk'', VStr ''high'')]], None)"
    using h2 filter_records_newer_than_state_errors [where s = OrderRisks and st = "Some []"
        and rs = "[[(''risk'', VStr ''high'')]]"]
    by blast
  show ?thesis
    using h2 c1 c2 c3 by (simp add: dict_get_def)
qed

section \<open>Pagination\<close>

lemma map_of_fold_update_pairs:
  "map_of (fold (\<lambda>(k, v). AList.update k (VStr v)) ps acc) x =
     (case map_of (rev ps) x of None \<Rightarrow> map_of acc x | Some v \<Rightarrow> Some (VStr v))"
proof (induction ps arbitrary: acc)
  case Nil
  then show ?case by simp
next
  case (Cons kv ps)
  obtain k v where kv: "kv = (k, v)" by (cases kv)
  show ?case
    using Cons.IH [of "AList.update k (VStr v) acc"] kv
    by (auto simp: update_conv' map_add_def split: option.splits)
qed

lemma map_of_dict_of_pairs:
  "map_of (dict_of_pairs ps) x = map_option VStr (map_of (rev ps) x)"
  by (simp add: dict_of_pairs_def map_of_fold_update_pairs split: option.splits)

lemma fold_update_nonempty:
  "acc \<noteq> [] \<Longrightarrow> fold (\<lambda>(k, v). AList.update k (VStr v)) ps acc \<noteq> []"
  by (induction ps arbitrary: acc) (auto split: prod.splits)

lemma dict_of_pairs_nonempty: "ps \<noteq> [] \<Longrightarrow> dict_of_pairs ps \<noteq> []"
  by (cases ps) (auto simp: dict_of_pairs_def fold_update_nonempty split: prod.splits)

lemma next_page_token_absent:
  "map_of links ''next'' = None \<or> map_of links ''next'' = Some [] \<Longrightarrow>
   next_page_token qp links = Inr None"
  by (auto simp: next_page_token_def)

lemma next_page_token_present:
  "map_of links ''next'' = Some link \<Longrightarrow> link \<noteq> [] \<Longrightarrow>
   next_page_token qp links =
     (case qp (map_of link ''url'') of
        Inl e \<Rightarrow> Inl e
      | Inr ps \<Rightarrow> Inr (Some (dict_of_pairs ps)))"
  by (simp add: next_page_token_def)

subsection \<open>C7: the next page token\<close>

text \<open>
  C7, as stated: a malformed next-page link gives \<open>None\<close>, so that pagination ends. The
  code has no such case: a link that is present is always parsed, well-formed or not.
  For the link \<open><not a url?x=1>; rel="next"\<close> the result is the non-empty token
  \<open>{"x": "1"}\<close>, and the next request is issued with it.
\<close>

theorem next_page_token_malformed_counterexample:
  "next_page_token url_query_pairs
       [(''next'', [(''url'', ''not a url?x=1''), (''rel'', ''next'')])]
     = Inr (Some [(''x'', VStr ''1'')])
   \<and> dict_truthy (Some [(''x'', VStr ''1'')])
   \<and> request_params Orders \<lparr>start_date = VStr ''2021-01-01'', shop = ''shop''\<rparr> None
       (Some [(''x'', VStr ''1'')])
     = [(''limit'', VInt 250), (''x'', VStr ''1'')]"
  by (simp add: next_page_token_def url_query_pairs_def url_query_def name_value_def
        dict_of_pairs_def incremental_request_params_def shopify_request_params_def
        dict_update_all_def limit_def)

text \<open>
  C7, amended: \<open>next_page_token\<close> returns \<open>None\<close> when the response has no next-page link
  (or an empty one). A link that is present is not checked: the result is never \<open>None\<close>
  but the dict of the query parameters that the URL parser finds in the link's \<open>url\<close>,
  each name with its last value. That is a non-empty token, with which pagination goes
  on, as soon as the parser finds one parameter, in a malformed link as in a well-formed
  one; it is the empty dict when the parser finds none; and an exception of the parser
  propagates.
\<close>

theorem next_page_token_cases:
  "(map_of links ''next'' = None \<or> map_of links ''next'' = Some []
      \<longrightarrow> next_page_token qp links = Inr None)
   \<and> (map_of links ''next'' = Some link \<and> link \<noteq> []
      \<longrightarrow> next_page_token qp links \<noteq> Inr None
         \<and> (qp (map_of link ''url'') = Inr ps
              \<longrightarrow> next_page_token qp links = Inr (Some (dict_of_pairs ps))
                \<and> map_of (dict_of_pairs ps) x = map_option VStr (map_of (rev ps) x)
                \<and> (ps \<noteq> [] \<longrightarrow> dict_truthy (Some (dict_of_pairs ps))))
         \<and> (qp (map_of link ''url'') = Inl e \<longrightarrow> next_page_token qp links = Inl e))"
  by (auto simp: next_page_token_absent next_page_token_present map_of_dict_of_pairs
        dict_of_pairs_nonempty split: sum.splits)

theorem next_page_token_cases_witness:
  "map_of [(''next'', [(''url'',
        ''https://shop.myshopify.com/admin/api/2021-07/orders.json?limit=250&page_info=abc''),
      (''rel'', ''next'')])] ''next''
     = Some [(''url'',
        ''https://shop.myshopify.com/admin/api/2021-07/orders.json?limit=250&page_info=abc''),
      (''rel'', ''next'')]
   \<and> url_query_pairs (Some
        ''https://shop.myshopify.com/admin/api/2021-07/orders.json?limit=250&page_info=abc'')
       = Inr [(''limit'', ''250''), (''page_info'', ''abc'')]
   \<and> next_page_token url_query_pairs [(''next'', [(''url'',
        ''https://shop.myshopify.com/admin/api/2021-07/orders.json?limit=250&page_info=abc''),
      (''rel'', ''next'')])]
       = Inr (Some [(''limit'', VStr ''250''), (''page_info'', VStr ''abc'')])
   \<and> map_of ([] :: (string \<times> (string \<times> string) list) list) ''next'' = None
   \<and> next_page_token url_query_pairs [] = Inr None"
proof -
  let ?u = "''https://shop.myshopify.com/admin/api/2021-07/orders.json?limit=250&page_info=abc''"
  let ?link = "[(''url'', ?u), (''rel'', ''next'')]"
  have h1: "map_of [(''next'', ?link)] ''next'' = Some ?link \<and> ?link \<noteq> []"
    by simp
  have h2: "url_query_pairs (map_of ?link ''url'')
              = Inr [(''limit'', ''250''), (''page_info'', ''abc'')]"
    by (simp add: url_query_pairs_def url_query_def name_value_def)
  have h3: "map_of ([] :: (string \<times> (string \<times> string) list) list) ''next'' = None"
    by simp
  have c1: "next_page_token url_query_pairs [(''next'', ?link)]
              = Inr (Some (dict_of_pairs [(''limit'', ''250''), (''page_info'', ''abc'')]))"
    using h1 h2 next_page_token_cases [where links = "[(''next'', ?link)]" and link = ?link
        and qp = url_query_pairs and ps = "[(''limit'', ''250''), (''page_info'', ''abc'')]"]
    by blast
  have c2: "next_page_token url_query_pairs [] = Inr None"
    using h3 next_page_token_cases [where links = "[]" and qp = url_query_pairs]
    by blast
  show ?thesis
    using h2 c1 c2 by (simp add: dict_of_pairs_def)
qed

section \<open>Slicing by orders\<close>

lemma order_child_path:
  assumes "s = OrderRefunds \<or> s = OrderRisks \<or> s = Transactions"
  shows "path s (Some [(''order_id'', i)]) =
           Inr (''orders/'' @ py_str i @ ''/'' @ data_field s @ ''.json'')"
  using assms by (auto simp: slice_path_def)

lemma order_slices_paths:
  assumes "\<forall>d \<in> set parents. \<exists>i. map_of d ''id'' = Some i
             \<and> path s (Some [(''order_id'', i)]) = Inr (P d)"
    and "\<forall>d \<in> set parents. snd (filter_records_newer_than_state s st (http_read (P d))) = None"
  shows "order_slices s http_read st parents =
     (map P parents,
      concat (map (\<lambda>d. fst (filter_records_newer_than_state s st (http_read (P d)))) parents),
      None)"
  using assms
proof (induction parents)
  case Nil
  then show ?case by simp
next
  case (Cons d parents)
  from Cons.prems(1) obtain i where i: "map_of d ''id'' = Some i"
    and p: "path s (Some [(''order_id'', i)]) = Inr (P d)" by auto
  obtain ys e where f: "filter_records_newer_than_state s st (http_read (P d)) = (ys, e)"
    by (cases "filter_records_newer_than_state s st (http_read (P d))")
  with Cons.prems(2) have e: "e = None" by simp
  from Cons.prems have IH: "order_slices s http_read st parents =
     (map P parents,
      concat (map (\<lambda>d. fst (filter_records_newer_than_state s st (http_read (P d)))) parents),
      None)"
    by (intro Cons.IH) simp_all
  show ?case
    by (simp add: i p f e IH del: path.simps)
qed

lemma order_slices_ok:
  assumes "s = OrderRefunds \<or> s = OrderRisks \<or> s = Transactions"
    and "\<forall>d \<in> set parents. map_of d ''id'' \<noteq> None"
    and "\<forall>d \<in> set parents.
           snd (filter_records_newer_than_state s st
                  (http_read (''orders/'' @ py_str (dict_get d ''id'' VNone) @ ''/''
                                @ data_field s @ ''.json''))) = None"
  shows "order_slices s http_read st parents =
     (map (\<lambda>d. ''orders/'' @ py_str (dict_get d ''id'' VNone) @ ''/'' @ data_field s @ ''.json'')
        parents,
      concat (map (\<lambda>d. fst (filter_records_newer_than_state s st
                  (http_read (''orders/'' @ py_str (dict_get d ''id'' VNone) @ ''/''
                                @ data_field s @ ''.json'')))) parents),
      None)"
proof (rule order_slices_paths)
  show "\<forall>d\<in>set parents. \<exists>i. map_of d ''id'' = Some i \<and>
          path s (Some [(''order_id'', i)]) =
          Inr (''orders/'' @ py_str (dict_get d ''id'' VNone) @ ''/'' @ data_field s @ ''.json'')"
  proof
    fix d assume "d \<in> set parents"
    with assms(2) obtain i where i: "map_of d ''id'' = Some i" by auto
    then have "dict_get d ''id'' VNone = i" by (simp add: dict_get_def)
    with i order_child_path [OF assms(1), of i] show "\<exists>i. map_of d ''id'' = Some i \<and>
          path s (Some [(''order_id'', i)]) =
          Inr (''orders/'' @ py_str (dict_get d ''id'' VNone) @ ''/'' @ data_field s @ ''.json'')"
      by simp
  qed
  show "\<forall>d \<in> set parents.
           snd (filter_records_newer_than_state s st
                  (http_read (''orders/'' @ py_str (dict_get d ''id'' VNone) @ ''/''
                                @ data_field s @ ''.json''))) = None"
    using assms(3) .
qed

lemma filter_records_total:
  assumes "\<forall>d. st = Some d \<and> d \<noteq> [] \<longrightarrow>
             (\<forall>r \<in> set rs. \<exists>v k. map_of r (cursor_field s) = Some v
                \<and> py_ge v (dict_get d (cursor_field s) VNone) = Inr k)"
  shows "snd (filter_records_newer_than_state s st rs) = None"
proof (cases "dict_truthy st")
  case False
  then show ?thesis by (simp add: filter_records_no_state)
next
  case True
  then obtain d where d: "st = Some d" "d \<noteq> []" by (cases st) auto
  with assms have "\<forall>r \<in> set rs. \<exists>v k. map_of r (cursor_field s) = Some v
                \<and> py_ge v (dict_get d (cursor_field s) VNone) = Inr k" by blast
  with d show ?thesis by (simp add: filter_records_state records_newer_than_ok)
qed

subsection \<open>C8: one fetch cycle per order\<close>

text \<open>
  C8: for OrderRefunds, OrderRisks and Transactions, \<open>read_records\<close> reads the orders with
  the state bridged under \<open>"orders"\<close> (absent when nothing was bridged) and, for each order
  that the read yields, issues one fetch cycle, in order, on the path
  \<open>orders/<id>/<resource>.json\<close> made from that order's id; what it yields is what
  \<open>filter_records_newer_than_state\<close> yields from the records of each cycle, one cycle
  after the other, and it ends without an exception. Here every order has an \<open>id\<close> (the
  primary key) and, when the child stream has a non-empty state, every fetched record has
  a cursor value that can be compared with the state's.
\<close>

theorem order_substream_read_records:
  assumes "s = OrderRefunds \<or> s = OrderRisks \<or> s = Transactions"
    and "\<forall>d \<in> set (orders_read (map_of b ''orders'')). map_of d ''id'' \<noteq> None"
    and "\<forall>d0. st = Some d0 \<and> d0 \<noteq> [] \<longrightarrow>
           (\<forall>d \<in> set (orders_read (map_of b ''orders'')).
              \<forall>r \<in> set (http_read (''orders/'' @ py_str (dict_get d ''id'' VNone) @ ''/''
                                      @ data_field s @ ''.json'')).
                \<exists>v k. map_of r (cursor_field s) = Some v
                  \<and> py_ge v (dict_get d0 (cursor_field s) VNone) = Inr k)"
  shows "read_records s orders_read http_read b st =
     (map (\<lambda>d. ''orders/'' @ py_str (dict_get d ''id'' VNone) @ ''/'' @ data_field s @ ''.json'')
        (orders_read (map_of b ''orders'')),
      concat (map (\<lambda>d. fst (filter_records_newer_than_state s st
                  (http_read (''orders/'' @ py_str (dict_get d ''id'' VNone) @ ''/''
                                @ data_field s @ ''.json''))))
        (orders_read (map_of b ''orders''))),
      None)"
proof -
  have "\<forall>d \<in> set (orders_read (map_of b ''orders'')).
           snd (filter_records_newer_than_state s st
                  (http_read (''orders/'' @ py_str (dict_get d ''id'' VNone) @ ''/''
                                @ data_field s @ ''.json''))) = None"
    using assms(3) by (intro ballI filter_records_total) blast
  with assms(1,2) show ?thesis
    unfolding read_records_def Let_def by (rule order_slices_ok)
qed

theorem order_substream_read_records_witness:
  "map_of [(''id'', VInt 1)] ''id'' \<noteq> None \<and> map_of [(''id'', VInt 2)] ''id'' \<noteq> None
   \<and> read_records OrderRefunds
        (\<lambda>st. if st = Some [(''updated_at'', VStr ''2021-05-01'')]
              then [[(''id'', VInt 1)], [(''id'', VInt 2)]] else [])
        (\<lambda>p. if p = ''orders/1/refunds.json''
             then [[(''id'', VInt 11), (''created_at'', VStr ''2021-05-01'')],
                   [(''id'', VInt 12), (''created_at'', VStr ''2021-07-01'')]]
             else [[(''id'', VInt 21), (''created_at'', VStr ''2021-06-01'')]])
        [(''orders'', [(''updated_at'', VStr ''2021-05-01'')])]
        (Some [(''created_at'', VStr ''2021-06-01'')])
       = ([''orders/1/refunds.json'', ''orders/2/refunds.json''],
          [[(''id'', VInt 12), (''created_at'', VStr ''2021-07-01'')],
           [(''id'', VInt 21), (''created_at'', VStr ''2021-06-01'')]],
          None)"
proof -
  let ?ord = "\<lambda>st. if st = Some [(''updated_at'', VStr ''2021-05-01'')]
              then [[(''id'', VInt 1)], [(''id'', VInt 2)]] else []"
  let ?http = "\<lambda>p. if p = ''orders/1/refunds.json''
             then [[(''id'', VInt 11), (''created_at'', VStr ''2021-05-01'')],
                   [(''id'', VInt 12), (''created_at'', VStr ''2021-07-01'')]]
             else [[(''id'', VInt 21), (''created_at'', VStr ''2021-06-01'')]]"
  let ?b = "[(''orders'', [(''updated_at'', VStr ''2021-05-01'')])]"
  let ?st = "Some [(''created_at'', VStr ''2021-06-01'')]"
  have h1: "OrderRefunds = OrderRefunds \<or> OrderRefunds = OrderRisks
              \<or> OrderRefunds = Transactions"
    by simp
  have h2: "\<forall>d \<in> set (?ord (map_of ?b ''orders'')). map_of d ''id'' \<noteq> None"
    by simp
  have h3: "\<forall>d0. ?st = Some d0 \<and> d0 \<noteq> [] \<longrightarrow>
           (\<forall>d \<in> set (?ord (map_of ?b ''orders'')).
              \<forall>r \<in> set (?http (''orders/'' @ py_str (dict_get d ''id'' VNone) @ ''/''
                                  @ data_field OrderRefunds @ ''.json'')).
                \<exists>v k. map_of r (cursor_field OrderRefunds) = Some v
                  \<and> py_ge v (dict_get d0 (cursor_field OrderRefunds) VNone) = Inr k)"
    by (auto simp: dict_get_def)
  have c: "read_records OrderRefunds ?ord ?http ?b ?st =
     (map (\<lambda>d. ''orders/'' @ py_str (dict_get d ''id'' VNone) @ ''/''
                 @ data_field OrderRefunds @ ''.json'')
        (?ord (map_of ?b ''orders'')),
      concat (map (\<lambda>d. fst (filter_records_newer_than_state OrderRefunds ?st
                  (?http (''orders/'' @ py_str (dict_get d ''id'' VNone) @ ''/''
                                @ data_field OrderRefunds @ ''.json''))))
        (?ord (map_of ?b ''orders''))),
      None)"
    by (rule order_substream_read_records [where s = OrderRefunds and orders_read = ?ord
          and http_read = ?http and b = ?b and st = ?st, OF h1 h2 h3])
  show ?thesis
    unfolding c by (simp add: filter_records_newer_than_state_def dict_get_def)
qed

section \<open>C9: an empty current state\<close>

text \<open>
  C9, as stated: an empty current state leaves the object unchanged, so that on a
  first-ever sync the object stays empty and a child stream reads an absent parent
  state. The first half holds. The second does not: the state is empty for the first
  record only. The state returned for the first order is the current state of the second
  call, which creates the entry \<open>"orders"\<close>; a child stream then reads that entry.
\<close>

theorem first_sync_bridge_counterexample:
  "get_updated_state Orders []
       [(''id'', VInt 1), (''updated_at'', VStr ''2021-01-01'')] []
     = ([], Inr [(''updated_at'', VStr ''2021-01-01'')])
   \<and> get_updated_state Orders [(''updated_at'', VStr ''2021-01-01'')]
       [(''id'', VInt 2), (''updated_at'', VStr ''2021-01-02'')] []
     = ([(''orders'', [(''updated_at'', VStr ''2021-01-01'')])],
        Inr [(''updated_at'', VStr ''2021-01-02'')])
   \<and> map_of [(''orders'', [(''updated_at'', VStr ''2021-01-01'')])] ''orders''
     = Some [(''updated_at'', VStr ''2021-01-01'')]"
  by (simp add: get_updated_state_def id_cursored_def stream_state_to_tmp_def tmp_value_def
        dict_get_def py_min_def py_max_def)

text \<open>
  C9, amended: when the incoming current state is empty, \<open>stream_state_to_tmp\<close> returns
  the object unchanged, whatever the latest record, and so does \<open>get_updated_state\<close>: the
  first record of a first-ever sync creates no entry. A child stream that reads an empty
  object passes an absent state (\<open>None\<close>) to the read of the orders.
\<close>

theorem empty_state_leaves_bridge:
  "stream_state_to_tmp n [] latest b cf = (b, None)
   \<and> fst (get_updated_state s [] latest b) = b
   \<and> read_records s orders_read http_read [] st
       = order_slices s http_read st (orders_read None)"
  by (simp add: stream_state_to_tmp_empty get_updated_state_def read_records_def
        split: sum.splits)

end
